theory Spec2Isabelle
  imports Complex_Main
begin

section \<open>The balloon risk task of main.py\<close>

text \<open>
  The program keeps everything in one dictionary, \<open>st.session_state\<close>. The keys that the
  top of the script initialises on every run are fields that are always present; the keys
  that only a handler writes (\<open>participant_name\<close>, \<open>department\<close>, \<open>game_id\<close>,
  \<open>balloon_size\<close>) are optional, and reading one that is absent is a \<open>KeyError\<close>.
  Python integers are \<open>int\<close>. A float is the rational number it stands for: the quotient
  \<open>1 / (max_pumps - current_pumps + 1)\<close> is the double nearest to the exact quotient, as the
  division of two integers gives it, and the sample of \<open>random.random()\<close> is a rational.
  A function that can raise returns \<open>py_error + session_state\<close>; an exception ends the
  call, so \<open>Inl\<close> carries the error alone. The two random sources are inputs: the list
  that \<open>random.choices\<close> returns is the argument of \<open>init_state\<close>, and the number that
  \<open>random.random\<close> returns is the argument of \<open>handle_pump\<close>.
\<close>

subsection \<open>Constants\<close>

definition POINTS_PER_PUMP :: int where
  "POINTS_PER_PUMP = 5"

definition TOTAL_TRIALS :: int where
  "TOTAL_TRIALS = 7"

definition MAX_PUMPS_MAP :: "(string \<times> int) list" where
  "MAX_PUMPS_MAP = [(''Yellow'', 8), (''Orange'', 16), (''Blue'', 64)]"

definition DEPARTMENTS :: "string list" where
  "DEPARTMENTS = [''Select Department'', ''Accounting'', ''Finance (BAF)'',
     ''Management Studies (MGT)'', ''Entrepreneurship'', ''Marketing'', ''Economics'',
     ''Other'']"

subsection \<open>Python errors, indexing and dictionary lookup\<close>

datatype py_error = KeyError | IndexError

definition list_getitem :: "'a list \<Rightarrow> int \<Rightarrow> py_error + 'a" where
  \<comment> \<open>\<open>xs[i]\<close>: an index from \<open>-len(xs)\<close> to \<open>-1\<close> counts from the end, anything outside
      \<open>-len(xs) .. len(xs) - 1\<close> raises.\<close>
  "list_getitem xs i =
     (if 0 \<le> i \<and> i < int (length xs) then Inr (xs ! nat i)
      else if i < 0 \<and> - int (length xs) \<le> i then Inr (xs ! nat (int (length xs) + i))
      else Inl IndexError)"

definition dict_getitem :: "('k \<times> 'v) list \<Rightarrow> 'k \<Rightarrow> py_error + 'v" where
  "dict_getitem d k = (case map_of d k of None \<Rightarrow> Inl KeyError | Some v \<Rightarrow> Inr v)"

definition key_getitem :: "'v option \<Rightarrow> py_error + 'v" where
  \<comment> \<open>reading an optional key of the session state\<close>
  "key_getitem v = (case v of None \<Rightarrow> Inl KeyError | Some x \<Rightarrow> Inr x)"

subsection \<open>The session state\<close>

datatype page_name = Start | Game | Explosion | GameOverExplosion | End

record trial_row =
  t_participant_name :: string
  t_department :: string
  t_game_id :: string
  t_trial_number :: int
  t_balloon_color :: string
  t_pumps :: int
  t_exploded :: int
  t_money_earned :: int
  t_total_money_after_trial :: int

record session_state =
  page :: page_name
  trial_data :: "trial_row list"
  total_score :: int
  current_trial :: int
  temp_score :: int
  pumps :: int
  balloon_colors_sequence :: "string list"
  max_pumps_this_trial :: int
  participant_name :: "string option"
  department :: "string option"
  game_id :: "string option"
  balloon_size :: "int option"

definition colors :: "string list" where
  \<comment> \<open>\<open>list(MAX_PUMPS_MAP.keys())\<close>\<close>
  "colors = map fst MAX_PUMPS_MAP"

definition valid_draw :: "string list \<Rightarrow> bool" where
  \<comment> \<open>what \<open>random.choices(colors, k=TOTAL_TRIALS)\<close> can return: \<open>TOTAL_TRIALS\<close> elements of
      \<open>colors\<close>, repetitions allowed\<close>
  "valid_draw sq \<longleftrightarrow> int (length sq) = TOTAL_TRIALS \<and> list_all (\<lambda>c. c \<in> set colors) sq"

definition init_state :: "string list \<Rightarrow> session_state" where
  \<comment> \<open>lines 30 to 48, on a session state with no key; \<open>sq\<close> is the sequence drawn\<close>
  "init_state sq =
     \<lparr> page = Start, trial_data = [], total_score = 0, current_trial = 1, temp_score = 0,
       pumps = 0, balloon_colors_sequence = sq, max_pumps_this_trial = 0,
       participant_name = None, department = None, game_id = None, balloon_size = None \<rparr>"

subsection \<open>Helper functions\<close>

definition setup_new_trial :: "session_state \<Rightarrow> py_error + session_state" where
  "setup_new_trial s =
     (if current_trial s \<le> TOTAL_TRIALS then
        (case list_getitem (balloon_colors_sequence s) (current_trial s - 1) of
           Inl e \<Rightarrow> Inl e
         | Inr current_color \<Rightarrow>
             (case dict_getitem MAX_PUMPS_MAP current_color of
                Inl e \<Rightarrow> Inl e
              | Inr m \<Rightarrow> Inr (s\<lparr>max_pumps_this_trial := m\<rparr>)))
      else Inr s)"

definition next_trial :: "session_state \<Rightarrow> py_error + session_state" where
  "next_trial s =
     (case list_getitem (balloon_colors_sequence s) (current_trial s - 1) of
        Inl e \<Rightarrow> Inl e
      | Inr current_color \<Rightarrow>
     (let is_exploded = (if page s = Explosion then 1
                         else if page s = GameOverExplosion then 1 else (0::int)) in
     (case key_getitem (participant_name s) of Inl e \<Rightarrow> Inl e | Inr pn \<Rightarrow>
     (case key_getitem (department s) of Inl e \<Rightarrow> Inl e | Inr dp \<Rightarrow>
     (case key_getitem (game_id s) of Inl e \<Rightarrow> Inl e | Inr gi \<Rightarrow>
     (let row = \<lparr> t_participant_name = pn, t_department = dp, t_game_id = gi,
                  t_trial_number = current_trial s, t_balloon_color = current_color,
                  t_pumps = pumps s, t_exploded = is_exploded,
                  t_money_earned = (if is_exploded = 0 then temp_score s else 0),
                  t_total_money_after_trial = total_score s \<rparr>;
          s1 = s\<lparr>trial_data := trial_data s @ [row]\<rparr>;
          s2 = s1\<lparr>current_trial := current_trial s1 + 1\<rparr>;
          s3 = s2\<lparr>temp_score := 0, pumps := 0\<rparr>
      in if current_trial s3 > TOTAL_TRIALS then Inr (s3\<lparr>page := End\<rparr>)
         else (case setup_new_trial s3 of
                 Inl e \<Rightarrow> Inl e
               | Inr s4 \<Rightarrow> Inr (s4\<lparr>page := Game\<rparr>))))))))"

function bit_length :: "int \<Rightarrow> int" where
  \<comment> \<open>\<open>n.bit_length()\<close> for \<open>n \<ge> 0\<close>\<close>
  "bit_length n = (if n \<le> 0 then 0 else bit_length (n div 2) + 1)"
  by pat_completeness auto
termination
  by (relation "measure nat") auto

declare bit_length.simps [simp del]

definition round_div_half_even :: "int \<Rightarrow> int \<Rightarrow> int" where
  \<comment> \<open>\<open>a / b\<close> for \<open>b > 0\<close>, rounded to the nearest integer, a tie to the even one\<close>
  "round_div_half_even a b =
     (let q = a div b; r = a mod b
      in if 2 * r < b then q else if b < 2 * r then q + 1 else if even q then q else q + 1)"

definition recip_scale :: "int \<Rightarrow> nat" where
  \<comment> \<open>with \<open>j\<close> the least exponent with \<open>b \<le> 2 ^ j\<close>, the quotient \<open>1 / b\<close> lies in
      \<open>[2 ^ -j, 2 ^ -(j - 1))\<close>, where doubles are \<open>2 ^ -(j + 52)\<close> apart; no two doubles are
      closer than \<open>2 ^ -1074\<close>\<close>
  "recip_scale b = nat (min (bit_length (b - 1) + 52) 1074)"

definition recip_mantissa :: "int \<Rightarrow> int" where
  "recip_mantissa b = round_div_half_even (2 ^ recip_scale b) b"

definition float_recip :: "int \<Rightarrow> rat" where
  \<comment> \<open>the float \<open>1 / b\<close> for an integer \<open>b \<ge> 1\<close>: the double nearest to the quotient\<close>
  "float_recip b = of_int (recip_mantissa b) / 2 ^ recip_scale b"

definition prob_explosion :: "int \<Rightarrow> int \<Rightarrow> rat" where
  \<comment> \<open>line 127; it runs only where \<open>current_pumps < max_pumps\<close>, so the divisor is at least 2
      (a divisor 0 would raise, and is given 0 here)\<close>
  "prob_explosion max_pumps current_pumps =
     (let b = max_pumps - current_pumps + 1
      in if 0 < b then float_recip b else if b < 0 then - float_recip (- b) else 0)"



definition handle_pump :: "rat \<Rightarrow> session_state \<Rightarrow> py_error + session_state" where
  \<comment> \<open>\<open>sample\<close> is what \<open>random.random()\<close> returns if it is called\<close>
  "handle_pump sample s =
     (case (if max_pumps_this_trial s = 0 then setup_new_trial s else Inr s) of
        Inl e \<Rightarrow> Inl e
      | Inr s0 \<Rightarrow>
     (let max_pumps = max_pumps_this_trial s0;
          s1 = s0\<lparr>pumps := pumps s0 + 1\<rparr>;
          current_pumps = pumps s1;
          s2 = s1\<lparr>temp_score := temp_score s1 + POINTS_PER_PUMP\<rparr>;
          s3 = (if current_pumps \<ge> max_pumps then s2\<lparr>page := Explosion\<rparr>
                else if sample < prob_explosion max_pumps current_pumps
                     then s2\<lparr>page := Explosion\<rparr> else s2)
      in Inr (s3\<lparr>balloon_size := Some (150 + pumps s3 * 5)\<rparr>)))"

definition handle_collect :: "session_state \<Rightarrow> py_error + session_state" where
  "handle_collect s = next_trial (s\<lparr>total_score := total_score s + temp_score s\<rparr>)"

definition reset_game :: "string list \<Rightarrow> session_state \<Rightarrow> session_state" where
  \<comment> \<open>every key is deleted, and the next run of the script initialises the state again,
      with a new draw \<open>sq\<close>\<close>
  "reset_game sq s = init_state sq"

subsection \<open>The game id\<close>

definition isspace :: "char \<Rightarrow> bool" where
  \<comment> \<open>\<open>str.isspace\<close> on the code points below 256\<close>
  "isspace c \<longleftrightarrow> (of_char c :: nat) \<in> {9, 10, 11, 12, 13, 28, 29, 30, 31, 32, 133, 160}"

definition strip :: "string \<Rightarrow> string" where
  "strip x = rev (dropWhile isspace (rev (dropWhile isspace x)))"

definition replace_space :: "string \<Rightarrow> string" where
  \<comment> \<open>\<open>.replace(' ', '_')\<close>\<close>
  "replace_space x = map (\<lambda>c. if c = CHR '' '' then CHR ''_'' else c) x"

definition stored_game_id :: "string \<Rightarrow> string" where
  \<comment> \<open>line 237\<close>
  "stored_game_id g = replace_space (strip g)"

definition csv_filename :: "string \<Rightarrow> string" where
  \<comment> \<open>line 333\<close>
  "csv_filename g = ''BART_'' @ g @ ''.csv''"

subsection \<open>Pages\<close>

definition start_page :: "string \<Rightarrow> string \<Rightarrow> string \<Rightarrow> session_state \<Rightarrow> py_error + session_state" where
  \<comment> \<open>the form of the start page, submitted\<close>
  "start_page name dept gid s =
     (if name = [] \<or> dept = ''Select Department'' \<or> gid = [] then Inr s
      else (let s1 = s\<lparr>participant_name := Some name, department := Some dept,
                        game_id := Some (stored_game_id gid)\<rparr>
            in case setup_new_trial s1 of
                 Inl e \<Rightarrow> Inl e
               | Inr s2 \<Rightarrow> Inr (s2\<lparr>page := Game\<rparr>)))"

definition game_page :: "session_state \<Rightarrow> py_error + session_state" where
  "game_page s =
     (case list_getitem (balloon_colors_sequence s) (current_trial s - 1) of
        Inl e \<Rightarrow> Inl e
      | Inr current_color \<Rightarrow>
          Inr (if page s = Explosion then s\<lparr>page := GameOverExplosion\<rparr> else s))"

definition explosion_page :: "session_state \<Rightarrow> py_error + session_state" where
  "explosion_page s =
     (case list_getitem (balloon_colors_sequence s) (current_trial s - 1) of
        Inl e \<Rightarrow> Inl e
      | Inr current_color \<Rightarrow> Inr s)"

definition end_page :: "session_state \<Rightarrow> py_error + session_state" where
  "end_page s = (case key_getitem (game_id s) of Inl e \<Rightarrow> Inl e | Inr g \<Rightarrow> Inr s)"

definition main :: "session_state \<Rightarrow> py_error + session_state" where
  \<comment> \<open>one run of the script: the page is drawn\<close>
  "main s =
     (case page s of
        Start \<Rightarrow> Inr s
      | Game \<Rightarrow> game_page s
      | Explosion \<Rightarrow> explosion_page s
      | GameOverExplosion \<Rightarrow> explosion_page s
      | End \<Rightarrow> end_page s)"

subsection \<open>User actions\<close>

text \<open>
  A button can be clicked only if the last run of the script drew it. The start page draws
  the form; the game page draws PUMP, and COLLECT unless \<open>pumps\<close> is 0; the explosion page
  draws "Continue to Next Trial". A click runs the button's callback and then the script
  again.
\<close>

datatype action = SubmitForm string string string | PumpButton rat | CollectButton | ContinueButton

fun offered :: "session_state \<Rightarrow> action \<Rightarrow> bool" where
  "offered s (SubmitForm name dept gid) \<longleftrightarrow> page s = Start \<and> dept \<in> set DEPARTMENTS"
| "offered s (PumpButton sample) \<longleftrightarrow> page s = Game \<and> 0 \<le> sample \<and> sample < 1"
| "offered s CollectButton \<longleftrightarrow> page s = Game \<and> pumps s \<noteq> 0"
| "offered s ContinueButton \<longleftrightarrow> page s = Explosion \<or> page s = GameOverExplosion"

fun callback :: "action \<Rightarrow> session_state \<Rightarrow> py_error + session_state" where
  "callback (SubmitForm name dept gid) s = start_page name dept gid s"
| "callback (PumpButton sample) s = handle_pump sample s"
| "callback CollectButton s = handle_collect s"
| "callback ContinueButton s = next_trial s"

definition click :: "action \<Rightarrow> session_state \<Rightarrow> py_error + session_state" where
  "click a s = (case callback a s of Inl e \<Rightarrow> Inl e | Inr s' \<Rightarrow> main s')"

inductive reachable :: "string list \<Rightarrow> session_state \<Rightarrow> bool" for sq where
  reach_init: "valid_draw sq \<Longrightarrow> reachable sq (init_state sq)"
| reach_click: "reachable sq s \<Longrightarrow> offered s a \<Longrightarrow> click a s = Inr s' \<Longrightarrow> reachable sq s'"

fun run :: "action list \<Rightarrow> session_state \<Rightarrow> session_state option" where
  \<comment> \<open>a sequence of clicks; \<open>None\<close> when one is not offered or raises\<close>
  "run [] s = Some s"
| "run (a # as) s =
     (if offered s a then (case click a s of Inl e \<Rightarrow> None | Inr s' \<Rightarrow> run as s')
      else None)"

subsection \<open>The invariant of a session\<close>

text \<open>
  What holds of every state that clicks can reach from the initial one: the trial counter
  stays in range, the stake of the running balloon is \<open>pumps\<close> times the points of a pump,
  one row has been recorded for each finished trial, and the total is the sum of what the
  rows earned.
\<close>

definition rows_ok :: "string list \<Rightarrow> trial_row list \<Rightarrow> bool" where
  "rows_ok sq rows \<longleftrightarrow>
     (\<forall>i < length rows.
        t_trial_number (rows ! i) = int i + 1 \<and>
        t_balloon_color (rows ! i) = sq ! i \<and>
        (\<exists>m. dict_getitem MAX_PUMPS_MAP (sq ! i) = Inr m \<and> t_pumps (rows ! i) \<le> m \<and>
             (t_exploded (rows ! i) = 0 \<longrightarrow> t_pumps (rows ! i) < m)) \<and>
        (t_exploded (rows ! i) = 0 \<or> t_exploded (rows ! i) = 1) \<and>
        t_money_earned (rows ! i) =
          (if t_exploded (rows ! i) = 1 then 0 else t_pumps (rows ! i) * POINTS_PER_PUMP) \<and>
        t_total_money_after_trial (rows ! i) =
          sum_list (map t_money_earned (take (Suc i) rows)))"

definition on_trial :: "session_state \<Rightarrow> bool" where
  "on_trial s \<longleftrightarrow> page s = Game \<or> page s = Explosion \<or> page s = GameOverExplosion"

definition session_inv :: "string list \<Rightarrow> session_state \<Rightarrow> bool" where
  "session_inv sq s \<longleftrightarrow>
     valid_draw sq \<and> balloon_colors_sequence s = sq \<and>
     1 \<le> current_trial s \<and> current_trial s \<le> TOTAL_TRIALS + 1 \<and>
     (page s = End \<longleftrightarrow> current_trial s = TOTAL_TRIALS + 1) \<and>
     (page s = Start \<longrightarrow> current_trial s = 1) \<and>
     (page s \<noteq> Start \<longrightarrow>
        participant_name s \<noteq> None \<and> department s \<noteq> None \<and> game_id s \<noteq> None) \<and>
     (on_trial s \<longrightarrow>
        dict_getitem MAX_PUMPS_MAP (sq ! nat (current_trial s - 1)) =
          Inr (max_pumps_this_trial s)) \<and>
     temp_score s = pumps s * POINTS_PER_PUMP \<and> 0 \<le> pumps s \<and>
     (page s = Game \<longrightarrow> pumps s < max_pumps_this_trial s) \<and>
     (on_trial s \<longrightarrow> pumps s \<le> max_pumps_this_trial s) \<and>
     (\<not> on_trial s \<longrightarrow> pumps s = 0) \<and>
     int (length (trial_data s)) = current_trial s - 1 \<and>
     total_score s = sum_list (map t_money_earned (trial_data s)) \<and>
     rows_ok sq (trial_data s)"

definition finished_row :: "session_state \<Rightarrow> trial_row" where
  "finished_row s =
     \<lparr> t_participant_name = the (participant_name s), t_department = the (department s),
       t_game_id = the (game_id s), t_trial_number = current_trial s,
       t_balloon_color = balloon_colors_sequence s ! nat (current_trial s - 1),
       t_pumps = pumps s,
       t_exploded = (if page s = Game then 0 else 1),
       t_money_earned = (if page s = Game then temp_score s else 0),
       t_total_money_after_trial = total_score s \<rparr>"

subsection \<open>Sample sessions\<close>

definition sample_draw :: "string list" where
  "sample_draw = [''Yellow'', ''Blue'', ''Yellow'', ''Orange'', ''Blue'', ''Blue'', ''Yellow'']"

definition state_after :: "action list \<Rightarrow> session_state" where
  \<comment> \<open>the state that a sequence of clicks leaves, starting from the draw above\<close>
  "state_after as =
     (case run as (init_state sample_draw) of Some s \<Rightarrow> s | None \<Rightarrow> init_state sample_draw)"

definition two_pumps :: "action list" where
  "two_pumps = [SubmitForm ''Ann'' ''Other'' ''BAF 01'', PumpButton (1/2), PumpButton (1/2)]"

definition six_pumps :: "action list" where
  "six_pumps = SubmitForm ''Ann'' ''Other'' ''BAF 01'' # replicate 6 (PumpButton (3/4))"

definition seven_pumps :: "action list" where
  "seven_pumps = SubmitForm ''Ann'' ''Other'' ''BAF 01'' # replicate 7 (PumpButton (3/4))"

definition eight_pumps :: "action list" where
  "eight_pumps = SubmitForm ''Ann'' ''Other'' ''BAF 01'' # replicate 8 (PumpButton (3/4))"

definition ceiling_session :: "action list" where
  "ceiling_session =
     SubmitForm ''Ann'' ''Other'' ''BAF 01'' # replicate 8 (PumpButton (3/4)) @
     [ContinueButton, PumpButton (3/4), CollectButton] @ replicate 7 (PumpButton (3/4))"

definition burst_second :: "action list" where
  "burst_second = two_pumps @ [CollectButton, PumpButton 0]"

definition pump_second :: "action list" where
  "pump_second = two_pumps @ [CollectButton, PumpButton (3/4)]"

subsection \<open>The table of the end page\<close>

datatype cell = Str string | Num int

definition frame_row :: "trial_row \<Rightarrow> cell list" where
  \<comment> \<open>the columns in the order of \<open>required_cols\<close>\<close>
  "frame_row r =
     [Str (t_participant_name r), Str (t_department r), Str (t_game_id r),
      Num (t_trial_number r), Str (t_balloon_color r), Num (t_pumps r), Num (t_exploded r),
      Num (t_money_earned r), Num (t_total_money_after_trial r)]"

definition data_frame :: "session_state \<Rightarrow> cell list list" where
  \<comment> \<open>lines 318 to 328: one row for each dictionary of \<open>trial_data\<close>, in the list's order\<close>
  "data_frame s = map frame_row (trial_data s)"

definition full_session :: "action list" where
  "full_session =
     [SubmitForm ''Ann'' ''Other'' ''BAF 01'',
      PumpButton (3/4), PumpButton (3/4), CollectButton,
      PumpButton 0, ContinueButton,
      PumpButton (3/4), CollectButton,
      PumpButton (3/4), CollectButton,
      PumpButton 0, ContinueButton,
      PumpButton (3/4), PumpButton (3/4), PumpButton (3/4), CollectButton,
      PumpButton (3/4), CollectButton]"

definition tab_id :: string where
  "tab_id = [CHR ''a'', CHR 0x09, CHR ''b'']"

definition tab_session :: "action list" where
  "tab_session = [SubmitForm ''Ann'' ''Other'' tab_id]"

section \<open>The invariant is kept\<close>

lemma max_pumps_of_color:
  "c \<in> set colors \<Longrightarrow>
   dict_getitem MAX_PUMPS_MAP c = Inr 8 \<or> dict_getitem MAX_PUMPS_MAP c = Inr 16 \<or>
   dict_getitem MAX_PUMPS_MAP c = Inr 64"
  by (auto simp: colors_def MAX_PUMPS_MAP_def dict_getitem_def)

lemma valid_draw_nth:
  assumes "valid_draw sq" "0 \<le> i" "i < TOTAL_TRIALS"
  shows "sq ! nat i \<in> set colors" and "list_getitem sq i = Inr (sq ! nat i)"
proof -
  from assms have len: "nat i < length sq" by (auto simp: valid_draw_def)
  with assms(1) show "sq ! nat i \<in> set colors"
    by (simp add: valid_draw_def list_all_length)
  from assms len show "list_getitem sq i = Inr (sq ! nat i)"
    by (simp add: list_getitem_def valid_draw_def)
qed

lemma setup_new_trial_ok:
  assumes "valid_draw (balloon_colors_sequence s)" "1 \<le> current_trial s"
    "current_trial s \<le> TOTAL_TRIALS"
  shows "\<exists>m. dict_getitem MAX_PUMPS_MAP (balloon_colors_sequence s ! nat (current_trial s - 1)) = Inr m
     \<and> (m = 8 \<or> m = 16 \<or> m = 64) \<and> setup_new_trial s = Inr (s\<lparr>max_pumps_this_trial := m\<rparr>)"
proof -
  let ?sq = "balloon_colors_sequence s" and ?i = "current_trial s - 1"
  from assms have i: "0 \<le> ?i" "?i < TOTAL_TRIALS" by simp_all
  from valid_draw_nth [OF assms(1) i]
  have c: "?sq ! nat ?i \<in> set colors" and g: "list_getitem ?sq ?i = Inr (?sq ! nat ?i)"
    by simp_all
  from max_pumps_of_color [OF c] g assms(3) show ?thesis
    by (auto simp: setup_new_trial_def)
qed

lemma rows_ok_snoc:
  assumes "rows_ok sq rows"
    and "t_trial_number r = int (length rows) + 1"
    and "t_balloon_color r = sq ! length rows"
    and "dict_getitem MAX_PUMPS_MAP (sq ! length rows) = Inr m" "t_pumps r \<le> m"
    and "t_exploded r = 0 \<longrightarrow> t_pumps r < m"
    and "t_exploded r = 0 \<or> t_exploded r = 1"
    and "t_money_earned r = (if t_exploded r = 1 then 0 else t_pumps r * POINTS_PER_PUMP)"
    and "t_total_money_after_trial r = sum_list (map t_money_earned rows) + t_money_earned r"
  shows "rows_ok sq (rows @ [r])"
  unfolding rows_ok_def
proof (intro allI impI)
  fix i assume "i < length (rows @ [r])"
  then consider "i < length rows" | "i = length rows" by fastforce
  then show "t_trial_number ((rows @ [r]) ! i) = int i + 1 \<and>
        t_balloon_color ((rows @ [r]) ! i) = sq ! i \<and>
        (\<exists>m. dict_getitem MAX_PUMPS_MAP (sq ! i) = Inr m \<and> t_pumps ((rows @ [r]) ! i) \<le> m \<and>
             (t_exploded ((rows @ [r]) ! i) = 0 \<longrightarrow> t_pumps ((rows @ [r]) ! i) < m)) \<and>
        (t_exploded ((rows @ [r]) ! i) = 0 \<or> t_exploded ((rows @ [r]) ! i) = 1) \<and>
        t_money_earned ((rows @ [r]) ! i) =
          (if t_exploded ((rows @ [r]) ! i) = 1 then 0 else t_pumps ((rows @ [r]) ! i) * POINTS_PER_PUMP) \<and>
        t_total_money_after_trial ((rows @ [r]) ! i) =
          sum_list (map t_money_earned (take (Suc i) (rows @ [r])))"
  proof cases
    case 1
    with assms(1) show ?thesis
      unfolding rows_ok_def by (simp add: nth_append)
  next
    case 2
    with assms(2-) show ?thesis by auto
  qed
qed

lemma main_inv: "session_inv sq s \<Longrightarrow> main s = Inr s"
proof -
  assume inv: "session_inv sq s"
  show ?thesis
  proof (cases "page s")
    case Start
    then show ?thesis by (simp add: main_def)
  next
    case End
    with inv show ?thesis
      by (auto simp: main_def end_page_def key_getitem_def session_inv_def)
  next
    case Game
    with inv have "0 \<le> current_trial s - 1" "current_trial s - 1 < TOTAL_TRIALS"
      and "valid_draw (balloon_colors_sequence s)"
      by (auto simp: session_inv_def)
    from valid_draw_nth(2) [OF this(3) this(1,2)] Game show ?thesis
      by (simp add: main_def game_page_def)
  next
    case Explosion
    with inv have "0 \<le> current_trial s - 1" "current_trial s - 1 < TOTAL_TRIALS"
      and "valid_draw (balloon_colors_sequence s)"
      by (auto simp: session_inv_def)
    from valid_draw_nth(2) [OF this(3) this(1,2)] Explosion show ?thesis
      by (simp add: main_def explosion_page_def)
  next
    case GameOverExplosion
    with inv have "0 \<le> current_trial s - 1" "current_trial s - 1 < TOTAL_TRIALS"
      and "valid_draw (balloon_colors_sequence s)"
      by (auto simp: session_inv_def)
    from valid_draw_nth(2) [OF this(3) this(1,2)] GameOverExplosion show ?thesis
      by (simp add: main_def explosion_page_def)
  qed
qed

lemma init_state_inv: "valid_draw sq \<Longrightarrow> session_inv sq (init_state sq)"
  by (simp add: session_inv_def init_state_def on_trial_def rows_ok_def TOTAL_TRIALS_def)

lemma start_page_inv:
  assumes inv: "session_inv sq s" and pg: "page s = Start"
  shows "\<exists>s'. start_page name dept gid s = Inr s' \<and> session_inv sq s'"
proof (cases "name = [] \<or> dept = ''Select Department'' \<or> gid = []")
  case True
  with inv show ?thesis by (simp add: start_page_def)
next
  case False
  let ?s1 = "s\<lparr>participant_name := Some name, department := Some dept,
                 game_id := Some (stored_game_id gid)\<rparr>"
  from inv pg have "valid_draw (balloon_colors_sequence ?s1)" "1 \<le> current_trial ?s1"
    "current_trial ?s1 \<le> TOTAL_TRIALS"
    by (auto simp: session_inv_def TOTAL_TRIALS_def)
  from setup_new_trial_ok [OF this] obtain m where
    m: "dict_getitem MAX_PUMPS_MAP (balloon_colors_sequence s ! nat (current_trial s - 1)) = Inr m"
      "m = 8 \<or> m = 16 \<or> m = 64"
      "setup_new_trial ?s1 = Inr (?s1\<lparr>max_pumps_this_trial := m\<rparr>)"
    by auto
  from False m(3) have "start_page name dept gid s = Inr (?s1\<lparr>max_pumps_this_trial := m, page := Game\<rparr>)"
    by (simp add: start_page_def)
  moreover from inv pg m(1,2) have "session_inv sq (?s1\<lparr>max_pumps_this_trial := m, page := Game\<rparr>)"
    by (auto simp: session_inv_def on_trial_def TOTAL_TRIALS_def)
  ultimately show ?thesis by blast
qed

lemma handle_pump_result:
  assumes "max_pumps_this_trial s \<noteq> 0"
  shows "handle_pump sample s =
     Inr (s\<lparr>pumps := pumps s + 1, temp_score := temp_score s + POINTS_PER_PUMP,
            page := (if pumps s + 1 \<ge> max_pumps_this_trial s
                       \<or> sample < prob_explosion (max_pumps_this_trial s) (pumps s + 1)
                     then Explosion else page s),
            balloon_size := Some (150 + (pumps s + 1) * 5)\<rparr>)"
  using assms by (simp add: handle_pump_def Let_def)

lemma handle_pump_inv:
  assumes inv: "session_inv sq s" and pg: "page s = Game"
  shows "\<exists>s'. handle_pump sample s = Inr s' \<and> session_inv sq s'"
proof -
  from inv pg have "max_pumps_this_trial s \<noteq> 0"
    by (auto simp: session_inv_def)
  note r = handle_pump_result [OF this, of sample]
  from inv pg have "session_inv sq (s\<lparr>pumps := pumps s + 1, temp_score := temp_score s + POINTS_PER_PUMP,
            page := (if pumps s + 1 \<ge> max_pumps_this_trial s
                       \<or> sample < prob_explosion (max_pumps_this_trial s) (pumps s + 1)
                     then Explosion else page s),
            balloon_size := Some (150 + (pumps s + 1) * 5)\<rparr>)"
    by (auto simp: session_inv_def on_trial_def POINTS_PER_PUMP_def TOTAL_TRIALS_def)
  with r show ?thesis by blast
qed

lemma next_trial_result:
  assumes vd: "valid_draw (balloon_colors_sequence s)" and tr: "on_trial s"
    and ct: "1 \<le> current_trial s" "current_trial s \<le> TOTAL_TRIALS"
    and keys: "participant_name s \<noteq> None" "department s \<noteq> None" "game_id s \<noteq> None"
  shows "\<exists>m. next_trial s =
     Inr (s\<lparr>trial_data := trial_data s @ [finished_row s],
            current_trial := current_trial s + 1, temp_score := 0, pumps := 0,
            max_pumps_this_trial := (if current_trial s < TOTAL_TRIALS then m
                                     else max_pumps_this_trial s),
            page := (if current_trial s < TOTAL_TRIALS then Game else End)\<rparr>)
     \<and> (current_trial s < TOTAL_TRIALS \<longrightarrow>
          dict_getitem MAX_PUMPS_MAP (balloon_colors_sequence s ! nat (current_trial s)) = Inr m
          \<and> (m = 8 \<or> m = 16 \<or> m = 64))"
proof -
  let ?sq = "balloon_colors_sequence s"
  from ct have "0 \<le> current_trial s - 1" "current_trial s - 1 < TOTAL_TRIALS" by simp_all
  from valid_draw_nth(2) [OF vd this]
  have g: "list_getitem ?sq (current_trial s - 1) = Inr (?sq ! nat (current_trial s - 1))" .
  from keys obtain pn dp gi where k: "participant_name s = Some pn" "department s = Some dp"
    "game_id s = Some gi" by auto
  let ?s3 = "s\<lparr>trial_data := trial_data s @ [finished_row s],
               current_trial := current_trial s + 1, temp_score := 0, pumps := 0\<rparr>"
  show ?thesis
  proof (cases "current_trial s < TOTAL_TRIALS")
    case True
    with vd ct have "valid_draw (balloon_colors_sequence ?s3)" "1 \<le> current_trial ?s3"
      "current_trial ?s3 \<le> TOTAL_TRIALS" by simp_all
    from setup_new_trial_ok [OF this] obtain m where
      m: "dict_getitem MAX_PUMPS_MAP (?sq ! nat (current_trial s)) = Inr m"
        "m = 8 \<or> m = 16 \<or> m = 64"
        "setup_new_trial ?s3 = Inr (?s3\<lparr>max_pumps_this_trial := m\<rparr>)"
      by auto
    from g k tr True m(3) have "next_trial s =
       Inr (?s3\<lparr>max_pumps_this_trial := m, page := Game\<rparr>)"
      by (auto simp: next_trial_def key_getitem_def Let_def finished_row_def on_trial_def)
    with True m(1,2) show ?thesis by auto
  next
    case False
    with g k tr ct have "next_trial s = Inr (?s3\<lparr>page := End\<rparr>)"
      by (auto simp: next_trial_def key_getitem_def Let_def finished_row_def on_trial_def)
    with False show ?thesis by auto
  qed
qed

lemma session_invD:
  assumes "session_inv sq s"
  shows "valid_draw sq" "balloon_colors_sequence s = sq"
    "1 \<le> current_trial s" "current_trial s \<le> TOTAL_TRIALS + 1"
    "page s = End \<longleftrightarrow> current_trial s = TOTAL_TRIALS + 1"
    "page s = Start \<Longrightarrow> current_trial s = 1"
    "page s \<noteq> Start \<Longrightarrow> participant_name s \<noteq> None"
    "page s \<noteq> Start \<Longrightarrow> department s \<noteq> None"
    "page s \<noteq> Start \<Longrightarrow> game_id s \<noteq> None"
    "on_trial s \<Longrightarrow> dict_getitem MAX_PUMPS_MAP (sq ! nat (current_trial s - 1)) =
          Inr (max_pumps_this_trial s)"
    "temp_score s = pumps s * POINTS_PER_PUMP" "0 \<le> pumps s"
    "page s = Game \<Longrightarrow> pumps s < max_pumps_this_trial s"
    "on_trial s \<Longrightarrow> pumps s \<le> max_pumps_this_trial s"
    "\<not> on_trial s \<Longrightarrow> pumps s = 0"
    "int (length (trial_data s)) = current_trial s - 1"
    "total_score s = sum_list (map t_money_earned (trial_data s))"
    "rows_ok sq (trial_data s)"
  using assms by (simp_all add: session_inv_def)

lemma session_invI:
  assumes "valid_draw sq" "balloon_colors_sequence s = sq"
    "1 \<le> current_trial s" "current_trial s \<le> TOTAL_TRIALS + 1"
    "page s = End \<longleftrightarrow> current_trial s = TOTAL_TRIALS + 1"
    "page s = Start \<Longrightarrow> current_trial s = 1"
    "page s \<noteq> Start \<Longrightarrow> participant_name s \<noteq> None \<and> department s \<noteq> None \<and> game_id s \<noteq> None"
    "on_trial s \<Longrightarrow> dict_getitem MAX_PUMPS_MAP (sq ! nat (current_trial s - 1)) =
          Inr (max_pumps_this_trial s)"
    "temp_score s = pumps s * POINTS_PER_PUMP" "0 \<le> pumps s"
    "page s = Game \<Longrightarrow> pumps s < max_pumps_this_trial s"
    "on_trial s \<Longrightarrow> pumps s \<le> max_pumps_this_trial s"
    "\<not> on_trial s \<Longrightarrow> pumps s = 0"
    "int (length (trial_data s)) = current_trial s - 1"
    "total_score s = sum_list (map t_money_earned (trial_data s))"
    "rows_ok sq (trial_data s)"
  shows "session_inv sq s"
  unfolding session_inv_def using assms by blast

lemma inv_on_trial_range:
  assumes "session_inv sq s" "on_trial s"
  shows "1 \<le> current_trial s" "current_trial s \<le> TOTAL_TRIALS" "page s \<noteq> Start"
proof -
  from assms(2) have "page s \<noteq> End" and ns: "page s \<noteq> Start" by (auto simp: on_trial_def)
  with session_invD(3-5) [OF assms(1)]
  have "current_trial s \<noteq> TOTAL_TRIALS + 1" "current_trial s \<le> TOTAL_TRIALS + 1"
    "1 \<le> current_trial s"
    by simp_all
  then show "1 \<le> current_trial s" "current_trial s \<le> TOTAL_TRIALS" by simp_all
  show "page s \<noteq> Start" by (rule ns)
qed

lemma next_trial_inv:
  assumes inv: "session_inv sq s0" and tr: "on_trial s0"
    and s: "s = s0\<lparr>total_score := total_score s0 + (if page s0 = Game then temp_score s0 else 0)\<rparr>"
  shows "\<exists>s'. next_trial s = Inr s' \<and> session_inv sq s' \<and>
           trial_data s' = trial_data s0 @ [finished_row s] \<and>
           total_score s' = total_score s \<and>
           current_trial s' = current_trial s0 + 1 \<and>
           page s' = (if current_trial s0 < TOTAL_TRIALS then Game else End) \<and>
           pumps s' = 0"
proof -
  note ct = inv_on_trial_range(1,2) [OF inv tr] and ns = inv_on_trial_range(3) [OF inv tr]
  note vd = session_invD(1) [OF inv] and sq = session_invD(2) [OF inv]
    and len = session_invD(16) [OF inv] and ts = session_invD(11) [OF inv]
    and tot = session_invD(17) [OF inv] and ro = session_invD(18) [OF inv]
  from len ct have idx: "nat (current_trial s0 - 1) = length (trial_data s0)" by simp
  from session_invD(10) [OF inv tr] idx
  have mp1: "dict_getitem MAX_PUMPS_MAP (sq ! length (trial_data s0)) = Inr (max_pumps_this_trial s0)"
    by simp
  note mp2 = session_invD(14) [OF inv tr]
  have rows: "rows_ok sq (trial_data s0 @ [finished_row s])"
  proof (rule rows_ok_snoc [OF ro _ _ mp1])
    show "t_trial_number (finished_row s) = int (length (trial_data s0)) + 1"
      using len by (simp add: finished_row_def s)
    show "t_balloon_color (finished_row s) = sq ! length (trial_data s0)"
      using idx sq by (simp add: finished_row_def s)
    show "t_pumps (finished_row s) \<le> max_pumps_this_trial s0"
      using mp2 by (simp add: finished_row_def s)
    show "t_exploded (finished_row s) = 0 \<longrightarrow>
        t_pumps (finished_row s) < max_pumps_this_trial s0"
      using session_invD(13) [OF inv] by (simp add: finished_row_def s)
    show "t_exploded (finished_row s) = 0 \<or> t_exploded (finished_row s) = 1"
      by (simp add: finished_row_def)
    show "t_money_earned (finished_row s) =
        (if t_exploded (finished_row s) = 1 then 0 else t_pumps (finished_row s) * POINTS_PER_PUMP)"
      using ts by (simp add: finished_row_def s)
    show "t_total_money_after_trial (finished_row s) =
        sum_list (map t_money_earned (trial_data s0)) + t_money_earned (finished_row s)"
      using tot by (simp add: finished_row_def s)
  qed
  have total: "total_score s = sum_list (map t_money_earned (trial_data s0 @ [finished_row s]))"
    using tot by (simp add: finished_row_def s)
  have pre: "valid_draw (balloon_colors_sequence s)" "on_trial s"
    "1 \<le> current_trial s" "current_trial s \<le> TOTAL_TRIALS"
    "participant_name s \<noteq> None" "department s \<noteq> None" "game_id s \<noteq> None"
    using vd sq tr ct session_invD(7-9) [OF inv ns] by (simp_all add: s on_trial_def)
  from next_trial_result [OF pre] obtain m where
    res: "next_trial s =
     Inr (s\<lparr>trial_data := trial_data s @ [finished_row s],
            current_trial := current_trial s + 1, temp_score := 0, pumps := 0,
            max_pumps_this_trial := (if current_trial s < TOTAL_TRIALS then m
                                     else max_pumps_this_trial s),
            page := (if current_trial s < TOTAL_TRIALS then Game else End)\<rparr>)"
    and m: "current_trial s < TOTAL_TRIALS \<longrightarrow>
          dict_getitem MAX_PUMPS_MAP (balloon_colors_sequence s ! nat (current_trial s)) = Inr m
          \<and> (m = 8 \<or> m = 16 \<or> m = 64)"
    by blast
  let ?s' = "s\<lparr>trial_data := trial_data s @ [finished_row s],
            current_trial := current_trial s + 1, temp_score := 0, pumps := 0,
            max_pumps_this_trial := (if current_trial s < TOTAL_TRIALS then m
                                     else max_pumps_this_trial s),
            page := (if current_trial s < TOTAL_TRIALS then Game else End)\<rparr>"
  have td: "trial_data s = trial_data s0" by (simp add: s)
  have fr: "temp_score ?s' = pumps ?s' * POINTS_PER_PUMP"
    "0 \<le> pumps ?s'" "balloon_colors_sequence ?s' = sq"
    "trial_data ?s' = trial_data s0 @ [finished_row s]"
    "total_score ?s' = total_score s" "current_trial ?s' = current_trial s0 + 1"
    "participant_name ?s' \<noteq> None \<and> department ?s' \<noteq> None \<and> game_id ?s' \<noteq> None"
    "pumps ?s' = 0"
    using sq pre(5-7) by (simp_all add: s)
  have pg: "page ?s' = (if current_trial s0 < TOTAL_TRIALS then Game else End)"
    by (simp add: s)
  have mx: "current_trial s0 < TOTAL_TRIALS \<Longrightarrow> max_pumps_this_trial ?s' = m"
    by (simp add: s)
  have mm: "current_trial s0 < TOTAL_TRIALS \<Longrightarrow>
      dict_getitem MAX_PUMPS_MAP (sq ! nat (current_trial s0)) = Inr m \<and> (m = 8 \<or> m = 16 \<or> m = 64)"
    using m sq by (simp add: s)
  have "session_inv sq ?s'"
  proof (rule session_invI)
    show "valid_draw sq" by (rule vd)
    show "balloon_colors_sequence ?s' = sq" by (rule fr(3))
    show "1 \<le> current_trial ?s'" unfolding fr(6) using ct by simp
    show "current_trial ?s' \<le> TOTAL_TRIALS + 1" unfolding fr(6) using ct by simp
    show "page ?s' = End \<longleftrightarrow> current_trial ?s' = TOTAL_TRIALS + 1"
      unfolding fr(6) pg using ct by simp
    show "current_trial ?s' = 1" if "page ?s' = Start"
      using that unfolding pg by (simp split: if_splits)
    show "participant_name ?s' \<noteq> None \<and> department ?s' \<noteq> None \<and> game_id ?s' \<noteq> None"
      by (rule fr(7))
    show "dict_getitem MAX_PUMPS_MAP (sq ! nat (current_trial ?s' - 1)) =
          Inr (max_pumps_this_trial ?s')" if "on_trial ?s'"
    proof -
      from that have lt: "current_trial s0 < TOTAL_TRIALS"
        unfolding on_trial_def pg by (simp split: if_splits)
      from mm [OF lt] mx [OF lt] show ?thesis unfolding fr(6) by simp
    qed
    show "temp_score ?s' = pumps ?s' * POINTS_PER_PUMP" by (rule fr(1))
    show "0 \<le> pumps ?s'" by (rule fr(2))
    show "pumps ?s' < max_pumps_this_trial ?s'" if "page ?s' = Game"
    proof -
      from that have lt: "current_trial s0 < TOTAL_TRIALS"
        unfolding pg by (simp split: if_splits)
      from mm [OF lt] mx [OF lt] fr(8) show ?thesis by auto
    qed
    show "pumps ?s' \<le> max_pumps_this_trial ?s'" if "on_trial ?s'"
    proof -
      from that have lt: "current_trial s0 < TOTAL_TRIALS"
        unfolding on_trial_def pg by (simp split: if_splits)
      from mm [OF lt] mx [OF lt] fr(8) show ?thesis by auto
    qed
    show "pumps ?s' = 0" by (rule fr(8))
    show "int (length (trial_data ?s')) = current_trial ?s' - 1"
      unfolding fr(4) fr(6) using len by simp
    show "total_score ?s' = sum_list (map t_money_earned (trial_data ?s'))"
      unfolding fr(4) fr(5) by (rule total)
    show "rows_ok sq (trial_data ?s')" unfolding fr(4) by (rule rows)
  qed
  with res td fr(6) fr(8) pg show ?thesis by simp
qed

lemma click_inv:
  assumes inv: "session_inv sq s" and off: "offered s a"
  shows "\<exists>s'. click a s = Inr s' \<and> session_inv sq s'"
proof (cases a)
  case (SubmitForm name dept gid)
  with off have "page s = Start" by simp
  from start_page_inv [OF inv this, of name dept gid] SubmitForm show ?thesis
    by (auto simp: click_def main_inv)
next
  case (PumpButton sample)
  with off have "page s = Game" by simp
  from handle_pump_inv [OF inv this, of sample] PumpButton show ?thesis
    by (auto simp: click_def main_inv)
next
  case CollectButton
  with off have pg: "page s = Game" by simp
  then have "on_trial s" by (simp add: on_trial_def)
  from next_trial_inv [OF inv this refl] pg CollectButton show ?thesis
    by (auto simp: click_def main_inv handle_collect_def)
next
  case ContinueButton
  with off have pg: "page s \<noteq> Game" and tr: "on_trial s" by (auto simp: on_trial_def)
  from pg have "s\<lparr>total_score := total_score s + (if page s = Game then temp_score s else 0)\<rparr> = s"
    by simp
  from next_trial_inv [OF inv tr this [symmetric]] ContinueButton show ?thesis
    by (auto simp: click_def main_inv)
qed

lemma reachable_inv: "reachable sq s \<Longrightarrow> session_inv sq s"
proof (induction rule: reachable.induct)
  case reach_init
  then show ?case by (rule init_state_inv)
next
  case (reach_click s a s')
  from click_inv [OF reach_click.IH reach_click.hyps(2)] reach_click.hyps(3)
  show ?case by auto
qed

lemma run_reachable: "reachable sq s \<Longrightarrow> run as s = Some s' \<Longrightarrow> reachable sq s'"
proof (induction as arbitrary: s)
  case Nil
  then show ?case by simp
next
  case (Cons a as)
  from Cons.prems(2) obtain s1 where "offered s a" "click a s = Inr s1" "run as s1 = Some s'"
    by (auto split: if_splits sum.splits)
  with Cons.prems(1) Cons.IH show ?case
    by (blast intro: reach_click)
qed

section \<open>Sample sessions are reachable\<close>

lemma valid_sample_draw: "valid_draw sample_draw"
  by (simp add: valid_draw_def sample_draw_def TOTAL_TRIALS_def colors_def MAX_PUMPS_MAP_def)

lemma state_after_reachable:
  "run as (init_state sample_draw) \<noteq> None \<Longrightarrow> reachable sample_draw (state_after as)"
  unfolding state_after_def
  by (auto intro: run_reachable [OF reach_init [OF valid_sample_draw]])

lemma two_pumps_runs: "run two_pumps (init_state sample_draw) \<noteq> None"
  by code_simp

section \<open>The explosion probability\<close>


lemma six_pumps_runs: "run six_pumps (init_state sample_draw) \<noteq> None"
  by code_simp

lemma seven_pumps_runs: "run seven_pumps (init_state sample_draw) \<noteq> None"
  by code_simp

lemma eight_pumps_runs: "run eight_pumps (init_state sample_draw) \<noteq> None"
  by code_simp

lemma click_pump:
  assumes "session_inv sq s" "page s = Game"
  shows "click (PumpButton x) s = handle_pump x s"
proof -
  from handle_pump_inv [OF assms, of x] obtain s' where
    "handle_pump x s = Inr s'" "session_inv sq s'" by blast
  then show ?thesis by (simp add: click_def main_inv)
qed

subsection \<open>The float quotient\<close>














subsection \<open>The probability against the exact quotient\<close>




subsection \<open>The probability one pump before the ceiling\<close>




section \<open>The ceiling of a balloon\<close>

lemma ceiling_session_runs: "run ceiling_session (init_state sample_draw) \<noteq> None"
  by code_simp

lemma rows_ok_member:
  assumes "rows_ok sq rows" "row \<in> set rows"
  shows "\<exists>m. dict_getitem MAX_PUMPS_MAP (t_balloon_color row) = Inr m \<and> t_pumps row \<le> m \<and>
           (t_pumps row = m \<longrightarrow> t_exploded row = 1)"
proof -
  from assms(2) obtain i where i: "i < length rows" "rows ! i = row"
    by (auto simp: in_set_conv_nth)
  with assms(1) have c: "t_balloon_color row = sq ! i"
    and e: "t_exploded row = 0 \<or> t_exploded row = 1"
    and "\<exists>m. dict_getitem MAX_PUMPS_MAP (sq ! i) = Inr m \<and> t_pumps row \<le> m \<and>
             (t_exploded row = 0 \<longrightarrow> t_pumps row < m)"
    unfolding rows_ok_def by blast+
  then obtain m where "dict_getitem MAX_PUMPS_MAP (sq ! i) = Inr m" "t_pumps row \<le> m"
    "t_exploded row = 0 \<longrightarrow> t_pumps row < m" by blast
  with c e show ?thesis by auto
qed

text \<open>
  C1. In every reachable state on the game page, the ceiling in force is that of the colour
  of the current trial; the pump that brings \<open>pumps\<close> to the ceiling ends on the explosion
  page whatever the sample is, and \<open>handle_pump\<close> gives the same result for any two
  samples. Every recorded row has \<open>pumps\<close> at most the ceiling of its colour, and a row
  whose \<open>pumps\<close> equals the ceiling is recorded as exploded.
\<close>

theorem ceiling_pump_explodes:
  assumes "reachable sq s"
  shows "(page s = Game \<and> pumps s + 1 = max_pumps_this_trial s \<longrightarrow>
            (\<forall>sample. \<exists>s'. click (PumpButton sample) s = Inr s' \<and> page s' = Explosion \<and>
                pumps s' = max_pumps_this_trial s) \<and>
            (\<forall>x y. handle_pump x s = handle_pump y s)) \<and>
         (page s = Game \<longrightarrow>
            dict_getitem MAX_PUMPS_MAP (sq ! nat (current_trial s - 1)) =
              Inr (max_pumps_this_trial s)) \<and>
         (\<forall>row \<in> set (trial_data s).
            \<exists>m. dict_getitem MAX_PUMPS_MAP (t_balloon_color row) = Inr m \<and> t_pumps row \<le> m \<and>
                (t_pumps row = m \<longrightarrow> t_exploded row = 1))"
proof (intro conjI impI ballI)
  note inv = reachable_inv [OF assms]
  show "dict_getitem MAX_PUMPS_MAP (sq ! nat (current_trial s - 1)) =
      Inr (max_pumps_this_trial s)" if "page s = Game"
    using session_invD(10) [OF inv] that by (simp add: on_trial_def)
  show "\<exists>m. dict_getitem MAX_PUMPS_MAP (t_balloon_color row) = Inr m \<and> t_pumps row \<le> m \<and>
      (t_pumps row = m \<longrightarrow> t_exploded row = 1)" if "row \<in> set (trial_data s)" for row
    using rows_ok_member [OF session_invD(18) [OF inv] that] .
  assume a: "page s = Game \<and> pumps s + 1 = max_pumps_this_trial s"
  with session_invD(12) [OF inv] have nz: "max_pumps_this_trial s \<noteq> 0" by auto
  show "\<forall>x y. handle_pump x s = handle_pump y s"
    using a by (simp add: handle_pump_result [OF nz])
  show "\<forall>sample. \<exists>s'. click (PumpButton sample) s = Inr s' \<and> page s' = Explosion \<and>
                pumps s' = max_pumps_this_trial s"
    using a click_pump [OF inv] by (simp add: handle_pump_result [OF nz])
qed

theorem ceiling_pump_explodes_witness:
  "reachable sample_draw (state_after ceiling_session) \<and>
   page (state_after ceiling_session) = Game \<and>
   pumps (state_after ceiling_session) + 1 = max_pumps_this_trial (state_after ceiling_session) \<and>
   (\<exists>s'. click (PumpButton 0) (state_after ceiling_session) = Inr s' \<and> page s' = Explosion \<and>
      pumps s' = 8) \<and>
   handle_pump 0 (state_after ceiling_session) = handle_pump (3/4) (state_after ceiling_session) \<and>
   dict_getitem MAX_PUMPS_MAP (sample_draw ! 2) = Inr 8 \<and>
   hd (trial_data (state_after ceiling_session)) \<in> set (trial_data (state_after ceiling_session)) \<and>
   t_pumps (hd (trial_data (state_after ceiling_session))) = 8 \<and>
   t_balloon_color (hd (trial_data (state_after ceiling_session))) = ''Yellow'' \<and>
   (\<exists>m. dict_getitem MAX_PUMPS_MAP ''Yellow'' = Inr m \<and> 8 \<le> m \<and>
      (8 = m \<longrightarrow> t_exploded (hd (trial_data (state_after ceiling_session))) = 1))"
proof -
  let ?s = "state_after ceiling_session"
  have r: "reachable sample_draw ?s"
    by (rule state_after_reachable [OF ceiling_session_runs])
  have g: "page ?s = Game" by code_simp
  have p: "pumps ?s + 1 = max_pumps_this_trial ?s" by code_simp
  have m: "max_pumps_this_trial ?s = 8" by code_simp
  have c: "current_trial ?s = 3" by code_simp
  have "trial_data ?s \<noteq> []" by code_simp
  then have h: "hd (trial_data ?s) \<in> set (trial_data ?s)" by simp
  have hp: "t_pumps (hd (trial_data ?s)) = 8" by code_simp
  have hc: "t_balloon_color (hd (trial_data ?s)) = ''Yellow''" by code_simp
  from ceiling_pump_explodes [OF r] have
    a: "page ?s = Game \<and> pumps ?s + 1 = max_pumps_this_trial ?s \<longrightarrow>
            (\<forall>sample. \<exists>s'. click (PumpButton sample) ?s = Inr s' \<and> page s' = Explosion \<and>
                pumps s' = max_pumps_this_trial ?s) \<and>
            (\<forall>x y. handle_pump x ?s = handle_pump y ?s)"
    and b: "page ?s = Game \<longrightarrow>
            dict_getitem MAX_PUMPS_MAP (sample_draw ! nat (current_trial ?s - 1)) =
              Inr (max_pumps_this_trial ?s)"
    and d: "\<forall>row \<in> set (trial_data ?s).
            \<exists>m. dict_getitem MAX_PUMPS_MAP (t_balloon_color row) = Inr m \<and> t_pumps row \<le> m \<and>
                (t_pumps row = m \<longrightarrow> t_exploded row = 1)"
    by blast+
  from a g p m have a': "\<exists>s'. click (PumpButton 0) ?s = Inr s' \<and> page s' = Explosion \<and> pumps s' = 8"
    "handle_pump 0 ?s = handle_pump (3/4) ?s" by auto
  from b g m c have b': "dict_getitem MAX_PUMPS_MAP (sample_draw ! 2) = Inr 8" by simp
  from d h hp hc have d': "\<exists>m. dict_getitem MAX_PUMPS_MAP ''Yellow'' = Inr m \<and> 8 \<le> m \<and>
      (8 = m \<longrightarrow> t_exploded (hd (trial_data ?s)) = 1)" by fastforce
  from r g p a' b' h hp hc d' show ?thesis by blast
qed

section \<open>What a trial earns\<close>

lemma click_collect:
  assumes inv: "session_inv sq s" and pg: "page s = Game"
  shows "\<exists>s'. click CollectButton s = Inr s' \<and> session_inv sq s' \<and>
           trial_data s' = trial_data s @
             [finished_row (s\<lparr>total_score := total_score s + temp_score s\<rparr>)] \<and>
           total_score s' = total_score s + temp_score s \<and>
           current_trial s' = current_trial s + 1 \<and>
           page s' = (if current_trial s < TOTAL_TRIALS then Game else End) \<and>
           pumps s' = 0"
proof -
  from pg have tr: "on_trial s" by (simp add: on_trial_def)
  from pg have e: "s\<lparr>total_score := total_score s + temp_score s\<rparr> =
      s\<lparr>total_score := total_score s + (if page s = Game then temp_score s else 0)\<rparr>"
    by simp
  from next_trial_inv [OF inv tr e] obtain s' where
    "next_trial (s\<lparr>total_score := total_score s + temp_score s\<rparr>) = Inr s'"
    "session_inv sq s'"
    "trial_data s' = trial_data s @ [finished_row (s\<lparr>total_score := total_score s + temp_score s\<rparr>)]"
    "total_score s' = total_score (s\<lparr>total_score := total_score s + temp_score s\<rparr>)"
    "current_trial s' = current_trial s + 1"
    "page s' = (if current_trial s < TOTAL_TRIALS then Game else End)"
    "pumps s' = 0"
    by blast
  then show ?thesis by (simp add: click_def handle_collect_def main_inv)
qed

lemma click_continue:
  assumes inv: "session_inv sq s" and pg: "page s = Explosion \<or> page s = GameOverExplosion"
  shows "\<exists>s'. click ContinueButton s = Inr s' \<and> session_inv sq s' \<and>
           trial_data s' = trial_data s @ [finished_row s] \<and>
           total_score s' = total_score s \<and>
           current_trial s' = current_trial s + 1 \<and>
           page s' = (if current_trial s < TOTAL_TRIALS then Game else End) \<and>
           pumps s' = 0"
proof -
  from pg have tr: "on_trial s" and ng: "page s \<noteq> Game" by (auto simp: on_trial_def)
  from ng have e: "s = s\<lparr>total_score := total_score s + (if page s = Game then temp_score s else 0)\<rparr>"
    by simp
  from next_trial_inv [OF inv tr e] obtain s' where
    "next_trial s = Inr s'" "session_inv sq s'"
    "trial_data s' = trial_data s @ [finished_row s]"
    "total_score s' = total_score s"
    "current_trial s' = current_trial s + 1"
    "page s' = (if current_trial s < TOTAL_TRIALS then Game else End)"
    "pumps s' = 0"
    by blast
  then show ?thesis by (simp add: click_def main_inv)
qed

lemma burst_second_runs: "run burst_second (init_state sample_draw) \<noteq> None"
  by code_simp

lemma pump_second_runs: "run pump_second (init_state sample_draw) \<noteq> None"
  by code_simp

lemma burst_second_state:
  "page (state_after burst_second) = Explosion \<and> pumps (state_after burst_second) = 1 \<and>
   total_score (state_after burst_second) = 10 \<and> length (trial_data (state_after burst_second)) = 1"
  by code_simp

lemma pump_second_state:
  "page (state_after pump_second) = Game \<and> pumps (state_after pump_second) = 1 \<and>
   temp_score (state_after pump_second) = 5 \<and>
   total_score (state_after pump_second) = 10 \<and> length (trial_data (state_after pump_second)) = 1"
  by code_simp

text \<open>
  C4. In every reachable state: on an explosion page, Continue records one row with
  \<open>exploded = 1\<close> and \<open>money_earned = 0\<close> and leaves \<open>total_score\<close> as it was; on the game
  page, \<open>temp_score\<close> is \<open>pumps\<close> times \<open>POINTS_PER_PUMP\<close>, Collect records one row with
  \<open>exploded = 0\<close> and \<open>money_earned = temp_score\<close> and adds exactly \<open>temp_score\<close> to
  \<open>total_score\<close>, and a pump changes neither \<open>total_score\<close> nor the rows.
\<close>

theorem trial_outcome_scoring:
  assumes "reachable sq s"
  shows "(page s = Explosion \<or> page s = GameOverExplosion \<longrightarrow>
            (\<exists>s' row. click ContinueButton s = Inr s' \<and> trial_data s' = trial_data s @ [row] \<and>
               t_exploded row = 1 \<and> t_money_earned row = 0 \<and> t_pumps row = pumps s \<and>
               total_score s' = total_score s)) \<and>
         (page s = Game \<longrightarrow>
            temp_score s = pumps s * POINTS_PER_PUMP \<and>
            (\<exists>s' row. click CollectButton s = Inr s' \<and> trial_data s' = trial_data s @ [row] \<and>
               t_exploded row = 0 \<and> t_money_earned row = temp_score s \<and> t_pumps row = pumps s \<and>
               total_score s' = total_score s + temp_score s) \<and>
            (\<forall>sample. \<exists>s'. click (PumpButton sample) s = Inr s' \<and>
               total_score s' = total_score s \<and> trial_data s' = trial_data s))"
proof (intro conjI impI allI)
  note inv = reachable_inv [OF assms]
  show "temp_score s = pumps s * POINTS_PER_PUMP" by (rule session_invD(11) [OF inv])
  {
    assume pg: "page s = Explosion \<or> page s = GameOverExplosion"
    from click_continue [OF inv pg] obtain s' where
      "click ContinueButton s = Inr s'" "trial_data s' = trial_data s @ [finished_row s]"
      "total_score s' = total_score s" by blast
    moreover from pg have "t_exploded (finished_row s) = 1" "t_money_earned (finished_row s) = 0"
      "t_pumps (finished_row s) = pumps s"
      by (auto simp: finished_row_def)
    ultimately show "\<exists>s' row. click ContinueButton s = Inr s' \<and>
        trial_data s' = trial_data s @ [row] \<and> t_exploded row = 1 \<and> t_money_earned row = 0 \<and>
        t_pumps row = pumps s \<and> total_score s' = total_score s"
      by blast
  }
  {
    assume pg: "page s = Game"
    let ?r = "finished_row (s\<lparr>total_score := total_score s + temp_score s\<rparr>)"
    from click_collect [OF inv pg] obtain s' where
      "click CollectButton s = Inr s'" "trial_data s' = trial_data s @ [?r]"
      "total_score s' = total_score s + temp_score s" by blast
    moreover from pg have "t_exploded ?r = 0" "t_money_earned ?r = temp_score s"
      "t_pumps ?r = pumps s"
      by (simp_all add: finished_row_def)
    ultimately show "\<exists>s' row. click CollectButton s = Inr s' \<and>
        trial_data s' = trial_data s @ [row] \<and> t_exploded row = 0 \<and>
        t_money_earned row = temp_score s \<and> t_pumps row = pumps s \<and>
        total_score s' = total_score s + temp_score s"
      by blast
    fix sample
    from session_invD(12,13) [OF inv] pg have nz: "max_pumps_this_trial s \<noteq> 0" by auto
    show "\<exists>s'. click (PumpButton sample) s = Inr s' \<and> total_score s' = total_score s \<and>
        trial_data s' = trial_data s"
      by (simp add: click_pump [OF inv pg] handle_pump_result [OF nz])
  }
qed

theorem trial_outcome_scoring_witness:
  "reachable sample_draw (state_after burst_second) \<and>
   page (state_after burst_second) = Explosion \<and>
   (\<exists>s' row. click ContinueButton (state_after burst_second) = Inr s' \<and>
      trial_data s' = trial_data (state_after burst_second) @ [row] \<and>
      t_exploded row = 1 \<and> t_money_earned row = 0 \<and> t_pumps row = 1 \<and> total_score s' = 10) \<and>
   reachable sample_draw (state_after pump_second) \<and>
   page (state_after pump_second) = Game \<and>
   temp_score (state_after pump_second) = 1 * POINTS_PER_PUMP \<and>
   (\<exists>s' row. click CollectButton (state_after pump_second) = Inr s' \<and>
      trial_data s' = trial_data (state_after pump_second) @ [row] \<and>
      t_exploded row = 0 \<and> t_money_earned row = 5 \<and> t_pumps row = 1 \<and> total_score s' = 15) \<and>
   (\<exists>s'. click (PumpButton (3/4)) (state_after pump_second) = Inr s' \<and> total_score s' = 10)"
proof -
  have r1: "reachable sample_draw (state_after burst_second)"
    by (rule state_after_reachable [OF burst_second_runs])
  have r2: "reachable sample_draw (state_after pump_second)"
    by (rule state_after_reachable [OF pump_second_runs])
  note b = burst_second_state and p = pump_second_state
  from trial_outcome_scoring [OF r1] b
  have 1: "\<exists>s' row. click ContinueButton (state_after burst_second) = Inr s' \<and>
      trial_data s' = trial_data (state_after burst_second) @ [row] \<and>
      t_exploded row = 1 \<and> t_money_earned row = 0 \<and> t_pumps row = 1 \<and> total_score s' = 10"
    by simp
  from trial_outcome_scoring [OF r2] p
  have 2: "temp_score (state_after pump_second) = 1 * POINTS_PER_PUMP"
    "\<exists>s' row. click CollectButton (state_after pump_second) = Inr s' \<and>
      trial_data s' = trial_data (state_after pump_second) @ [row] \<and>
      t_exploded row = 0 \<and> t_money_earned row = 5 \<and> t_pumps row = 1 \<and> total_score s' = 15"
    "\<exists>s'. click (PumpButton (3/4)) (state_after pump_second) = Inr s' \<and> total_score s' = 10"
    by auto
  from r1 r2 b p 1 2 show ?thesis by blast
qed

section \<open>The exported table\<close>

lemma full_session_runs: "run full_session (init_state sample_draw) \<noteq> None"
  by code_simp

lemma full_session_frame:
  "page (state_after full_session) = End \<and>
   data_frame (state_after full_session) =
    [[Str ''Ann'', Str ''Other'', Str ''BAF_01'', Num 1, Str ''Yellow'', Num 2, Num 0, Num 10, Num 10],
     [Str ''Ann'', Str ''Other'', Str ''BAF_01'', Num 2, Str ''Blue'', Num 1, Num 1, Num 0, Num 10],
     [Str ''Ann'', Str ''Other'', Str ''BAF_01'', Num 3, Str ''Yellow'', Num 1, Num 0, Num 5, Num 15],
     [Str ''Ann'', Str ''Other'', Str ''BAF_01'', Num 4, Str ''Orange'', Num 1, Num 0, Num 5, Num 20],
     [Str ''Ann'', Str ''Other'', Str ''BAF_01'', Num 5, Str ''Blue'', Num 1, Num 1, Num 0, Num 20],
     [Str ''Ann'', Str ''Other'', Str ''BAF_01'', Num 6, Str ''Blue'', Num 3, Num 0, Num 15, Num 35],
     [Str ''Ann'', Str ''Other'', Str ''BAF_01'', Num 7, Str ''Yellow'', Num 1, Num 0, Num 5, Num 40]]"
  by code_simp

lemma rows_trial_numbers:
  assumes "rows_ok sq rows"
  shows "map t_trial_number rows = [1 .. int (length rows)]"
proof (rule nth_equalityI)
  show "length (map t_trial_number rows) = length [1 .. int (length rows)]" by simp
  fix i assume "i < length (map t_trial_number rows)"
  then have i: "i < length rows" by simp
  with assms have "t_trial_number (rows ! i) = int i + 1" by (simp add: rows_ok_def)
  with i show "map t_trial_number rows ! i = [1 .. int (length rows)] ! i" by simp
qed

text \<open>
  C5. When a session has reached the end page, the table has \<open>TOTAL_TRIALS\<close> rows, the
  column \<open>trial_number\<close> reads 1 to \<open>TOTAL_TRIALS\<close> in this order, and in every row the
  column \<open>total_money_after_trial\<close> is the sum of \<open>money_earned\<close> over the rows up to and
  including that one.
\<close>

theorem export_rows_cumulative:
  assumes "reachable sq s" and "page s = End"
  shows "int (length (data_frame s)) = TOTAL_TRIALS \<and>
         map (\<lambda>row. row ! 3) (data_frame s) = map Num [1 .. TOTAL_TRIALS] \<and>
         (\<forall>k < length (data_frame s).
            data_frame s ! k ! 7 = Num (t_money_earned (trial_data s ! k)) \<and>
            data_frame s ! k ! 8 =
              Num (sum_list (map t_money_earned (take (Suc k) (trial_data s)))))"
proof -
  note inv = reachable_inv [OF assms(1)]
  from session_invD(5,16) [OF inv] assms(2)
  have len: "int (length (trial_data s)) = TOTAL_TRIALS" by simp
  note ro = session_invD(18) [OF inv]
  have "map (\<lambda>row. row ! 3) (data_frame s) = map Num (map t_trial_number (trial_data s))"
    by (simp add: data_frame_def frame_row_def)
  with rows_trial_numbers [OF ro] len
  have nums: "map (\<lambda>row. row ! 3) (data_frame s) = map Num [1 .. TOTAL_TRIALS]" by simp
  have cum: "data_frame s ! k ! 7 = Num (t_money_earned (trial_data s ! k)) \<and>
      data_frame s ! k ! 8 = Num (sum_list (map t_money_earned (take (Suc k) (trial_data s))))"
    if "k < length (data_frame s)" for k
  proof -
    from that have k: "k < length (trial_data s)" by (simp add: data_frame_def)
    with ro have "t_total_money_after_trial (trial_data s ! k) =
        sum_list (map t_money_earned (take (Suc k) (trial_data s)))"
      by (simp add: rows_ok_def)
    with k show ?thesis by (simp add: data_frame_def frame_row_def)
  qed
  from len nums cum show ?thesis by (simp add: data_frame_def)
qed

theorem export_rows_cumulative_witness:
  "reachable sample_draw (state_after full_session) \<and> page (state_after full_session) = End \<and>
   length (data_frame (state_after full_session)) = 7 \<and>
   map (\<lambda>row. row ! 3) (data_frame (state_after full_session)) =
     [Num 1, Num 2, Num 3, Num 4, Num 5, Num 6, Num 7] \<and>
   map (\<lambda>row. row ! 7) (data_frame (state_after full_session)) =
     [Num 10, Num 0, Num 5, Num 5, Num 0, Num 15, Num 5] \<and>
   map (\<lambda>row. row ! 8) (data_frame (state_after full_session)) =
     [Num 10, Num 10, Num 15, Num 20, Num 20, Num 35, Num 40] \<and>
   data_frame (state_after full_session) ! 5 ! 8 =
     Num (sum_list (map t_money_earned (take 6 (trial_data (state_after full_session)))))"
proof -
  have r: "reachable sample_draw (state_after full_session)"
    by (rule state_after_reachable [OF full_session_runs])
  note f = full_session_frame
  from f have p: "page (state_after full_session) = End" by simp
  from export_rows_cumulative [OF r p]
  have "\<forall>k < length (data_frame (state_after full_session)).
      data_frame (state_after full_session) ! k ! 8 =
        Num (sum_list (map t_money_earned (take (Suc k) (trial_data (state_after full_session)))))"
    by blast
  moreover from f have "5 < length (data_frame (state_after full_session))" by simp
  ultimately have "data_frame (state_after full_session) ! 5 ! 8 =
     Num (sum_list (map t_money_earned (take (Suc 5) (trial_data (state_after full_session)))))"
    by blast
  then have c: "data_frame (state_after full_session) ! 5 ! 8 =
     Num (sum_list (map t_money_earned (take 6 (trial_data (state_after full_session)))))"
    by (simp add: eval_nat_numeral)
  from r c show ?thesis by (simp add: f)
qed

section \<open>The trial log and the colour sequence\<close>

lemma start_page_rows:
  "start_page name dept gid s = Inr s' \<Longrightarrow> trial_data s' = trial_data s"
  by (auto simp: start_page_def setup_new_trial_def Let_def split: if_splits sum.splits)

lemma click_rows:
  assumes inv: "session_inv sq s" and off: "offered s a"
  shows "\<exists>s' rows. click a s = Inr s' \<and> session_inv sq s' \<and>
           trial_data s' = trial_data s @ rows \<and>
           length rows = (if a = CollectButton \<or> a = ContinueButton then 1 else 0)"
proof (cases a)
  case (SubmitForm name dept gid)
  with off have "page s = Start" by simp
  from start_page_inv [OF inv this, of name dept gid] obtain s' where
    s': "start_page name dept gid s = Inr s'" "session_inv sq s'" by blast
  with start_page_rows [OF s'(1)] SubmitForm show ?thesis
    by (simp add: click_def main_inv)
next
  case (PumpButton sample)
  with off have pg: "page s = Game" by simp
  from handle_pump_inv [OF inv pg, of sample] obtain s' where
    s': "handle_pump sample s = Inr s'" "session_inv sq s'" by blast
  from session_invD(12,13) [OF inv] pg have nz: "max_pumps_this_trial s \<noteq> 0" by auto
  from s'(1) have "trial_data s' = trial_data s"
    by (auto simp: handle_pump_result [OF nz])
  with s' PumpButton show ?thesis
    by (simp add: click_pump [OF inv pg])
next
  case CollectButton
  with off have pg: "page s = Game" by simp
  from click_collect [OF inv pg] CollectButton show ?thesis by auto
next
  case ContinueButton
  with off have pg: "page s = Explosion \<or> page s = GameOverExplosion" by simp
  from click_continue [OF inv pg] ContinueButton show ?thesis by auto
qed

lemma run_rows:
  "session_inv sq s \<Longrightarrow> run as s = Some s' \<Longrightarrow> \<exists>rows. trial_data s' = trial_data s @ rows"
proof (induction as arbitrary: s)
  case Nil
  then show ?case by simp
next
  case (Cons a as)
  from Cons.prems(2) obtain s1 where 1: "offered s a" "click a s = Inr s1" "run as s1 = Some s'"
    by (auto split: if_splits sum.splits)
  from click_rows [OF Cons.prems(1) 1(1)] 1(2) obtain rows where
    2: "session_inv sq s1" "trial_data s1 = trial_data s @ rows" by auto
  from Cons.IH [OF 2(1) 1(3)] obtain rows' where "trial_data s' = trial_data s1 @ rows'" ..
  with 2(2) show ?case by simp
qed

lemma pump_second_trial:
  "current_trial (state_after pump_second) = 2 \<and>
   max_pumps_this_trial (state_after pump_second) = 64 \<and>
   balloon_colors_sequence (state_after pump_second) = sample_draw \<and>
   map t_trial_number (trial_data (state_after pump_second)) = [1] \<and>
   map t_balloon_color (trial_data (state_after pump_second)) = [''Yellow'']"
  by code_simp

lemma pump_second_goes_on:
  "run [PumpButton (3/4), CollectButton] (state_after pump_second) \<noteq> None"
  by code_simp

lemma full_session_rows:
  "page (state_after full_session) = End \<and> length (trial_data (state_after full_session)) = 7"
  by code_simp

text \<open>
  C6. In every reachable state, a click on Collect or on Continue appends exactly one row
  to \<open>trial_data\<close> and a click on any other button offered appends none; whatever clicks
  follow, the rows already recorded stay as a prefix of \<open>trial_data\<close>; and the session is
  on the end page exactly when \<open>trial_data\<close> has \<open>TOTAL_TRIALS\<close> rows. The clicks are those
  of one session: \<open>reset_game\<close> discards the whole state and the next run starts another
  session from \<open>init_state\<close>.
\<close>

theorem trial_log_grows:
  assumes "reachable sq s"
  shows "(\<forall>a. offered s a \<longrightarrow>
            (\<exists>s' rows. click a s = Inr s' \<and> trial_data s' = trial_data s @ rows \<and>
               length rows = (if a = CollectButton \<or> a = ContinueButton then 1 else 0))) \<and>
         (\<forall>as s'. run as s = Some s' \<longrightarrow> (\<exists>rows. trial_data s' = trial_data s @ rows)) \<and>
         (page s = End \<longleftrightarrow> int (length (trial_data s)) = TOTAL_TRIALS)"
proof (intro conjI allI impI)
  note inv = reachable_inv [OF assms]
  show "\<exists>s' rows. click a s = Inr s' \<and> trial_data s' = trial_data s @ rows \<and>
      length rows = (if a = CollectButton \<or> a = ContinueButton then 1 else 0)"
    if "offered s a" for a
    using click_rows [OF inv that] by blast
  show "\<exists>rows. trial_data s' = trial_data s @ rows" if "run as s = Some s'" for as s'
    using run_rows [OF inv that] .
  from session_invD(5,16) [OF inv]
  show "page s = End \<longleftrightarrow> int (length (trial_data s)) = TOTAL_TRIALS" by auto
qed

theorem trial_log_grows_witness:
  "reachable sample_draw (state_after pump_second) \<and>
   offered (state_after pump_second) CollectButton \<and>
   (\<exists>s' rows. click CollectButton (state_after pump_second) = Inr s' \<and>
      trial_data s' = trial_data (state_after pump_second) @ rows \<and> length rows = 1) \<and>
   offered (state_after pump_second) (PumpButton (3/4)) \<and>
   (\<exists>s' rows. click (PumpButton (3/4)) (state_after pump_second) = Inr s' \<and>
      trial_data s' = trial_data (state_after pump_second) @ rows \<and> length rows = 0) \<and>
   (\<exists>s' rows. run [PumpButton (3/4), CollectButton] (state_after pump_second) = Some s' \<and>
      trial_data s' = trial_data (state_after pump_second) @ rows) \<and>
   page (state_after pump_second) \<noteq> End \<and>
   int (length (trial_data (state_after pump_second))) \<noteq> TOTAL_TRIALS \<and>
   reachable sample_draw (state_after full_session) \<and>
   page (state_after full_session) = End \<and>
   int (length (trial_data (state_after full_session))) = TOTAL_TRIALS"
proof -
  let ?s = "state_after pump_second" and ?f = "state_after full_session"
  have r: "reachable sample_draw ?s" by (rule state_after_reachable [OF pump_second_runs])
  have rf: "reachable sample_draw ?f" by (rule state_after_reachable [OF full_session_runs])
  note p = pump_second_state
  from p have oc: "offered ?s CollectButton" and op: "offered ?s (PumpButton (3/4))" by simp_all
  note t = trial_log_grows [OF r] and tf = trial_log_grows [OF rf]
  from t oc have 1: "\<exists>s' rows. click CollectButton ?s = Inr s' \<and>
      trial_data s' = trial_data ?s @ rows \<and> length rows = 1" by fastforce
  from t op have 2: "\<exists>s' rows. click (PumpButton (3/4)) ?s = Inr s' \<and>
      trial_data s' = trial_data ?s @ rows \<and> length rows = 0" by fastforce
  from pump_second_goes_on obtain s' where
    "run [PumpButton (3/4), CollectButton] ?s = Some s'" by blast
  with t have 3: "\<exists>s' rows. run [PumpButton (3/4), CollectButton] ?s = Some s' \<and>
      trial_data s' = trial_data ?s @ rows" by blast
  from p have 4: "page ?s \<noteq> End" by simp
  with t have 5: "int (length (trial_data ?s)) \<noteq> TOTAL_TRIALS" by blast
  from full_session_rows have 6: "page ?f = End" by simp
  with tf have 7: "int (length (trial_data ?f)) = TOTAL_TRIALS" by blast
  from r rf oc op 1 2 3 4 5 6 7 show ?thesis by blast
qed

text \<open>
  The colour sequence is an input of \<open>init_state\<close> and no handler assigns it: every
  reachable state carries the sequence the session started with; the row recorded for
  trial \<open>k + 1\<close> carries the colour at index \<open>k\<close>; and while a trial is running or has just
  burst, the lookup for the current trial returns the colour at index \<open>current_trial - 1\<close>
  and the ceiling in force is that colour's. How the sequence is distributed is a matter
  of \<open>random.choices\<close> and is not expressed here.
\<close>

lemma tier_sequence_fixed:
  assumes "reachable sq s"
  shows "valid_draw sq \<and> balloon_colors_sequence s = sq \<and> int (length sq) = TOTAL_TRIALS \<and>
         (\<forall>k < length (trial_data s).
            t_trial_number (trial_data s ! k) = int k + 1 \<and>
            t_balloon_color (trial_data s ! k) = sq ! k) \<and>
         (on_trial s \<longrightarrow>
            list_getitem (balloon_colors_sequence s) (current_trial s - 1) =
              Inr (sq ! nat (current_trial s - 1)) \<and>
            dict_getitem MAX_PUMPS_MAP (sq ! nat (current_trial s - 1)) =
              Inr (max_pumps_this_trial s))"
proof (intro conjI allI impI)
  note inv = reachable_inv [OF assms]
  show vd: "valid_draw sq" and sq: "balloon_colors_sequence s = sq"
    by (rule session_invD(1,2) [OF inv])+
  from vd show "int (length sq) = TOTAL_TRIALS" by (simp add: valid_draw_def)
  {
    fix k assume "k < length (trial_data s)"
    with session_invD(18) [OF inv]
    show "t_trial_number (trial_data s ! k) = int k + 1"
      and "t_balloon_color (trial_data s ! k) = sq ! k"
      by (simp_all add: rows_ok_def)
  }
  {
    assume tr: "on_trial s"
    from inv_on_trial_range(1,2) [OF inv tr]
    have "0 \<le> current_trial s - 1" "current_trial s - 1 < TOTAL_TRIALS" by simp_all
    from valid_draw_nth(2) [OF vd this] sq
    show "list_getitem (balloon_colors_sequence s) (current_trial s - 1) =
        Inr (sq ! nat (current_trial s - 1))" by simp
    show "dict_getitem MAX_PUMPS_MAP (sq ! nat (current_trial s - 1)) =
        Inr (max_pumps_this_trial s)"
      by (rule session_invD(10) [OF inv tr])
  }
qed

lemma tier_sequence_fixed_example:
  "reachable sample_draw (state_after pump_second) \<and> valid_draw sample_draw \<and>
   balloon_colors_sequence (state_after pump_second) = sample_draw \<and>
   int (length sample_draw) = TOTAL_TRIALS \<and>
   t_trial_number (trial_data (state_after pump_second) ! 0) = 1 \<and>
   t_balloon_color (trial_data (state_after pump_second) ! 0) = sample_draw ! 0 \<and>
   on_trial (state_after pump_second) \<and> current_trial (state_after pump_second) = 2 \<and>
   list_getitem (balloon_colors_sequence (state_after pump_second)) (2 - 1) = Inr (sample_draw ! 1) \<and>
   dict_getitem MAX_PUMPS_MAP (sample_draw ! 1) = Inr 64"
proof -
  let ?s = "state_after pump_second"
  have r: "reachable sample_draw ?s" by (rule state_after_reachable [OF pump_second_runs])
  note p = pump_second_state and q = pump_second_trial
  from p have tr: "on_trial ?s" and k: "0 < length (trial_data ?s)"
    by (simp_all add: on_trial_def)
  note t = tier_sequence_fixed [OF r]
  from t have a: "valid_draw sample_draw" "balloon_colors_sequence ?s = sample_draw"
    "int (length sample_draw) = TOTAL_TRIALS" by blast+
  from t k have b: "t_trial_number (trial_data ?s ! 0) = int 0 + 1 \<and>
      t_balloon_color (trial_data ?s ! 0) = sample_draw ! 0" by blast
  from t tr have c: "list_getitem (balloon_colors_sequence ?s) (current_trial ?s - 1) =
              Inr (sample_draw ! nat (current_trial ?s - 1)) \<and>
            dict_getitem MAX_PUMPS_MAP (sample_draw ! nat (current_trial ?s - 1)) =
              Inr (max_pumps_this_trial ?s)" by blast
  from q have ct: "current_trial ?s = 2" and mx: "max_pumps_this_trial ?s = 64" by simp_all
  from c have c': "list_getitem (balloon_colors_sequence ?s) (2 - 1) = Inr (sample_draw ! 1)"
    "dict_getitem MAX_PUMPS_MAP (sample_draw ! 1) = Inr 64"
    unfolding ct mx by simp_all
  from r a b tr ct c' show ?thesis by simp
qed

text \<open>
  C10. In every reachable state on the game page or on an explosion page,
  \<open>1 \<le> current_trial \<le> TOTAL_TRIALS\<close>, the sequence has \<open>TOTAL_TRIALS\<close> elements, the lookup
  at \<open>current_trial - 1\<close> returns an element and raises nothing, drawing the page raises
  nothing, and every button offered there, the two that finalise the trial included, runs
  without an error.
\<close>

theorem trial_index_in_range:
  assumes "reachable sq s" and "on_trial s"
  shows "1 \<le> current_trial s \<and> current_trial s \<le> TOTAL_TRIALS \<and>
         int (length (balloon_colors_sequence s)) = TOTAL_TRIALS \<and>
         list_getitem (balloon_colors_sequence s) (current_trial s - 1) =
           Inr (balloon_colors_sequence s ! nat (current_trial s - 1)) \<and>
         main s = Inr s \<and>
         (\<forall>a. offered s a \<longrightarrow> (\<exists>s'. click a s = Inr s'))"
proof (intro conjI allI impI)
  note inv = reachable_inv [OF assms(1)]
  note vd = session_invD(1) [OF inv] and sq = session_invD(2) [OF inv]
  show ct: "1 \<le> current_trial s" "current_trial s \<le> TOTAL_TRIALS"
    by (rule inv_on_trial_range(1,2) [OF inv assms(2)])+
  from vd sq show "int (length (balloon_colors_sequence s)) = TOTAL_TRIALS"
    by (simp add: valid_draw_def)
  from ct have "0 \<le> current_trial s - 1" "current_trial s - 1 < TOTAL_TRIALS" by simp_all
  from valid_draw_nth(2) [OF vd this] sq
  show "list_getitem (balloon_colors_sequence s) (current_trial s - 1) =
      Inr (balloon_colors_sequence s ! nat (current_trial s - 1))" by simp
  show "main s = Inr s" by (rule main_inv [OF inv])
  show "\<exists>s'. click a s = Inr s'" if "offered s a" for a
    using click_inv [OF inv that] by blast
qed

theorem trial_index_in_range_witness:
  "reachable sample_draw (state_after pump_second) \<and> on_trial (state_after pump_second) \<and>
   current_trial (state_after pump_second) = 2 \<and> (1::int) \<le> 2 \<and> 2 \<le> TOTAL_TRIALS \<and>
   int (length (balloon_colors_sequence (state_after pump_second))) = TOTAL_TRIALS \<and>
   list_getitem (balloon_colors_sequence (state_after pump_second)) (2 - 1) = Inr ''Blue'' \<and>
   main (state_after pump_second) = Inr (state_after pump_second) \<and>
   offered (state_after pump_second) CollectButton \<and>
   (\<exists>s'. click CollectButton (state_after pump_second) = Inr s')"
proof -
  let ?s = "state_after pump_second"
  have r: "reachable sample_draw ?s" by (rule state_after_reachable [OF pump_second_runs])
  note p = pump_second_state and q = pump_second_trial
  from p have tr: "on_trial ?s" and oc: "offered ?s CollectButton"
    by (simp_all add: on_trial_def)
  from q have ct: "current_trial ?s = 2" and sq: "balloon_colors_sequence ?s = sample_draw"
    by simp_all
  note t = trial_index_in_range [OF r tr]
  from t have a: "1 \<le> current_trial ?s" "current_trial ?s \<le> TOTAL_TRIALS"
    "int (length (balloon_colors_sequence ?s)) = TOTAL_TRIALS"
    "list_getitem (balloon_colors_sequence ?s) (current_trial ?s - 1) =
           Inr (balloon_colors_sequence ?s ! nat (current_trial ?s - 1))"
    "main ?s = Inr ?s" by blast+
  from t oc have b: "\<exists>s'. click CollectButton ?s = Inr s'" by blast
  from a(4) have c: "list_getitem (balloon_colors_sequence ?s) (2 - 1) = Inr ''Blue''"
    unfolding ct sq by (simp add: sample_draw_def)
  from a(1,2) have d: "(1::int) \<le> 2" "2 \<le> TOTAL_TRIALS" unfolding ct by simp_all
  from r tr ct d a(3,5) c oc b show ?thesis by blast
qed

section \<open>Buttons on a trial that has ended\<close>




section \<open>The stored game id\<close>

lemma stored_game_id_no_space: "CHR '' '' \<notin> set (stored_game_id g)"
  by (auto simp: stored_game_id_def replace_space_def)

text \<open>
  C9 fails on the code: \<open>strip\<close> removes white space at the two ends only and \<open>replace\<close>
  rewrites the space character only, so a tab inside the id is stored as it is and reaches
  the file name.
\<close>

theorem game_id_keeps_tab:
  "isspace (CHR 0x09) \<and> stored_game_id tab_id = tab_id \<and>
   CHR 0x09 \<in> set (stored_game_id tab_id) \<and>
   game_id (state_after tab_session) = Some tab_id \<and>
   csv_filename tab_id = ''BART_a'' @ [CHR 0x09] @ ''b.csv''"
  by code_simp

end
